theory Spec2Isabelle
  imports Complex_Main "HOL-Library.Word"
begin

unbundle bit_operations_syntax

section \<open>The C runtime of UnleashedJS (ujs.c)\<close>

subsection \<open>Memory: blocks, pointers, the allocator\<close>

text \<open>
  The heap is a map from addresses to allocated blocks. A \<^verbatim>\<open>JSObject*\<close> and the
  \<^verbatim>\<open>char*\<close> stored in a JSObject are \<open>addr option\<close>, with \<open>None\<close> for \<^verbatim>\<open>NULL\<close>.
  The \<^verbatim>\<open>const char*\<close> that \<^verbatim>\<open>js_object_get_data\<close> returns can also point to a
  string literal, so it has a type of its own.
\<close>

type_synonym addr = nat

definition NUL :: char where
  "NUL = CHR 0x00"

record JSObject =
  ref_count :: int
  data :: "addr option"
  size_field :: nat

text \<open>
  \<open>ref_count\<close> is a C \<^verbatim>\<open>int\<close> (32 bits on the targets the file names, x86_64 and arm64):
  it is kept as an \<open>int\<close> within \<open>INT_MIN..INT_MAX\<close>, and an increment or decrement that
  would leave the range is the undefined behaviour \<open>Signed_overflow\<close>.
  \<open>size_field\<close> is the field \<^verbatim>\<open>size\<close> (a \<^verbatim>\<open>size_t\<close>): it holds \<^verbatim>\<open>strlen(data) + 1\<close>, the
  number of bytes that the argument string occupies in memory, which is never more than
  \<^verbatim>\<open>SIZE_MAX\<close>, so no wrap-around arises and a \<open>nat\<close> holds it.
\<close>

definition INT_MAX :: int where
  "INT_MAX = 2147483647"

definition INT_MIN :: int where
  "INT_MIN = - 2147483648"

datatype block =
    Raw_block nat          \<comment> \<open>fresh from malloc: so many bytes, content indeterminate\<close>
  | Obj_block JSObject     \<comment> \<open>an initialised JSObject\<close>
  | Char_block string      \<comment> \<open>a char buffer and its bytes\<close>

datatype event =
    Malloc_event addr nat  \<comment> \<open>malloc returned this address for so many bytes\<close>
  | Malloc_failed nat      \<comment> \<open>malloc returned NULL\<close>
  | Free_event addr        \<comment> \<open>free released the block at this address\<close>

record heap =
  mem :: "addr \<Rightarrow> block option"
  brk :: addr
  outcomes :: "bool list"
  events :: "event list"

text \<open>
  \<open>outcomes\<close> lists what the allocator will answer to the coming calls of malloc
  (\<open>True\<close>: a block, \<open>False\<close>: NULL); when the list is used up, memory is exhausted and
  malloc returns NULL. \<open>brk\<close> is the next address malloc hands out. \<open>events\<close> is the
  log of the allocator: every malloc and every free that released a block, in order.
\<close>

datatype ub = Signed_overflow | Invalid_pointer

datatype char_ptr = Null_chars | Heap_chars addr | Static_chars string

definition malloc :: "heap \<Rightarrow> nat \<Rightarrow> addr option \<times> heap" where
  "malloc h n =
     (case outcomes h of
        True # rest \<Rightarrow>
          (Some (brk h),
           h\<lparr>mem := (mem h)(brk h \<mapsto> Raw_block n), brk := Suc (brk h),
             outcomes := rest, events := events h @ [Malloc_event (brk h) n]\<rparr>)
      | False # rest \<Rightarrow>
          (None, h\<lparr>outcomes := rest, events := events h @ [Malloc_failed n]\<rparr>)
      | [] \<Rightarrow> (None, h\<lparr>events := events h @ [Malloc_failed n]\<rparr>))"

text \<open>\<^verbatim>\<open>free(NULL)\<close> does nothing; freeing an address that holds no block is undefined.\<close>

definition free :: "heap \<Rightarrow> addr option \<Rightarrow> ub + heap" where
  "free h p =
     (case p of
        None \<Rightarrow> Inr h
      | Some a \<Rightarrow>
          (case mem h a of
             None \<Rightarrow> Inl Invalid_pointer
           | Some b \<Rightarrow> Inr (h\<lparr>mem := (mem h)(a := None), events := events h @ [Free_event a]\<rparr>)))"

text \<open>
  The argument of \<^verbatim>\<open>create_js_object\<close> is a \<^verbatim>\<open>const char*\<close>: the model takes the bytes
  the caller stored there, which a terminating NUL follows. \<^verbatim>\<open>strlen\<close> counts the bytes
  before the first NUL, \<^verbatim>\<open>strcpy\<close> copies them and the NUL.
\<close>

definition strlen :: "string \<Rightarrow> nat" where
  "strlen s = length (takeWhile (\<lambda>c. c \<noteq> NUL) s)"

definition strcpy :: "string \<Rightarrow> string" where
  "strcpy s = takeWhile (\<lambda>c. c \<noteq> NUL) s @ [NUL]"

text \<open>The C string a \<^verbatim>\<open>const char*\<close> points to: the bytes before the first NUL.\<close>

definition c_string :: "heap \<Rightarrow> char_ptr \<Rightarrow> ub + string" where
  "c_string h p =
     (case p of
        Null_chars \<Rightarrow> Inl Invalid_pointer
      | Static_chars s \<Rightarrow> Inr s
      | Heap_chars b \<Rightarrow>
          (case mem h b of
             Some (Char_block bs) \<Rightarrow>
               if NUL \<in> set bs then Inr (takeWhile (\<lambda>c. c \<noteq> NUL) bs)
               else Inl Invalid_pointer
           | _ \<Rightarrow> Inl Invalid_pointer))"

subsection \<open>JSObject: create, retain, release, read\<close>

text \<open>\<^verbatim>\<open>sizeof(JSObject)\<close> on the LP64 targets: int, padding, pointer, size_t.\<close>

definition sizeof_JSObject :: nat where
  "sizeof_JSObject = 24"

text \<open>
  \<^verbatim>\<open>create_js_object\<close>. The source stores \<open>ref_count\<close> and \<open>size\<close> before the second
  malloc and \<open>data\<close> after it; the model stores the three fields together once the
  second malloc has answered (malloc reads none of them).
\<close>

definition create_js_object :: "heap \<Rightarrow> string \<Rightarrow> addr option \<times> heap" where
  "create_js_object h d =
     (case malloc h sizeof_JSObject of
        (None, h1) \<Rightarrow> (None, h1)
      | (Some a, h1) \<Rightarrow>
          (let n = strlen d + 1 in
           case malloc h1 n of
             (None, h2) \<Rightarrow>
               (Some a,
                h2\<lparr>mem := (mem h2)(a \<mapsto> Obj_block \<lparr>ref_count = 1, data = None, size_field = n\<rparr>)\<rparr>)
           | (Some b, h2) \<Rightarrow>
               (Some a,
                h2\<lparr>mem := (mem h2)
                      (a \<mapsto> Obj_block \<lparr>ref_count = 1, data = Some b, size_field = n\<rparr>,
                       b \<mapsto> Char_block (strcpy d))\<rparr>)))"

definition retain_js_object :: "heap \<Rightarrow> addr option \<Rightarrow> ub + heap" where
  "retain_js_object h obj =
     (case obj of
        None \<Rightarrow> Inr h
      | Some a \<Rightarrow>
          (case mem h a of
             Some (Obj_block ob) \<Rightarrow>
               if ref_count ob = INT_MAX then Inl Signed_overflow
               else Inr (h\<lparr>mem := (mem h)(a \<mapsto> Obj_block (ob\<lparr>ref_count := ref_count ob + 1\<rparr>))\<rparr>)
           | _ \<Rightarrow> Inl Invalid_pointer))"

definition release_js_object :: "heap \<Rightarrow> addr option \<Rightarrow> ub + heap" where
  "release_js_object h obj =
     (case obj of
        None \<Rightarrow> Inr h
      | Some a \<Rightarrow>
          (case mem h a of
             Some (Obj_block ob) \<Rightarrow>
               if ref_count ob = INT_MIN then Inl Signed_overflow
               else
                 (let ob' = ob\<lparr>ref_count := ref_count ob - 1\<rparr>;
                      h1 = h\<lparr>mem := (mem h)(a \<mapsto> Obj_block ob')\<rparr>
                  in if ref_count ob' = 0
                     then (case free h1 (data ob') of
                             Inl e \<Rightarrow> Inl e
                           | Inr h2 \<Rightarrow> free h2 (Some a))
                     else Inr h1)
           | _ \<Rightarrow> Inl Invalid_pointer))"

definition js_object_get_data :: "heap \<Rightarrow> addr option \<Rightarrow> ub + char_ptr" where
  "js_object_get_data h obj =
     (case obj of
        None \<Rightarrow> Inr (Static_chars ''null'')
      | Some a \<Rightarrow>
          (case mem h a of
             Some (Obj_block ob) \<Rightarrow>
               Inr (case data ob of None \<Rightarrow> Null_chars | Some b \<Rightarrow> Heap_chars b)
           | _ \<Rightarrow> Inl Invalid_pointer))"

subsection \<open>The demonstration routine\<close>

definition bind_ub :: "ub + 'a \<Rightarrow> ('a \<Rightarrow> ub + 'b) \<Rightarrow> ub + 'b" where
  "bind_ub x f = (case x of Inl e \<Rightarrow> Inl e | Inr v \<Rightarrow> f v)"







subsection \<open>The arithmetic dispatcher and the cycle counter\<close>

text \<open>
  \<^verbatim>\<open>fast_math_operation\<close> computes on \<^verbatim>\<open>double\<close>. The dispatcher is modelled over any
  type \<open>'d\<close> of doubles, given with the operations the source applies to it: the four
  arithmetic operators, the test \<^verbatim>\<open>b != 0\<close>, and the double that the int constant
  \<^verbatim>\<open>0\<close> converts to.
\<close>

record 'd double_ops =
  dadd :: "'d \<Rightarrow> 'd \<Rightarrow> 'd"
  dsub :: "'d \<Rightarrow> 'd \<Rightarrow> 'd"
  dmul :: "'d \<Rightarrow> 'd \<Rightarrow> 'd"
  ddiv :: "'d \<Rightarrow> 'd \<Rightarrow> 'd"
  dneq_zero :: "'d \<Rightarrow> bool"
  dzero :: "'d"

definition fast_math_operation :: "'d double_ops \<Rightarrow> 'd \<Rightarrow> 'd \<Rightarrow> int \<Rightarrow> 'd" where
  "fast_math_operation fp a b operation =
     (if operation = 0 then dadd fp a b
      else if operation = 1 then dsub fp a b
      else if operation = 2 then dmul fp a b
      else if operation = 3 then (if dneq_zero fp b then ddiv fp a b else dzero fp)
      else dzero fp)"

text \<open>
  \<^verbatim>\<open>get_cpu_cycles\<close> has two bodies, chosen by \<^verbatim>\<open>#ifdef __x86_64__\<close>. On x86_64 the
  instruction rdtsc leaves the two halves of the time-stamp counter in \<open>lo\<close> and \<open>hi\<close>;
  they are the arguments of the model.
\<close>

datatype target = X86_64 | Other_target

definition get_cpu_cycles :: "target \<Rightarrow> 32 word \<Rightarrow> 32 word \<Rightarrow> 64 word" where
  "get_cpu_cycles t lo hi =
     (case t of
        X86_64 \<Rightarrow> (ucast lo :: 64 word) OR push_bit 32 (ucast hi :: 64 word)
      | Other_target \<Rightarrow> 0)"

subsection \<open>Notions used to state the properties\<close>

text \<open>Running an operation \<open>n\<close> times in a row, stopping at the first undefined step.\<close>

primrec times_ub :: "nat \<Rightarrow> (heap \<Rightarrow> ub + heap) \<Rightarrow> heap \<Rightarrow> ub + heap" where
  "times_ub 0 f h = Inr h"
| "times_ub (Suc n) f h = bind_ub (f h) (times_ub n f)"

text \<open>
  A live Handle: a JSObject block whose count is at least 1 and whose payload pointer is
  NULL or the address of a char buffer of its own.
\<close>

definition live_handle :: "heap \<Rightarrow> addr \<Rightarrow> bool" where
  "live_handle h a =
     (case mem h a of
        Some (Obj_block ob) \<Rightarrow>
          1 \<le> ref_count ob \<and>
          (case data ob of
             None \<Rightarrow> True
           | Some b \<Rightarrow> b \<noteq> a \<and> (case mem h b of Some (Char_block bs) \<Rightarrow> True | _ \<Rightarrow> False))
      | _ \<Rightarrow> False)"

definition payload_of :: "heap \<Rightarrow> addr \<Rightarrow> addr option" where
  "payload_of h a = (case mem h a of Some (Obj_block ob) \<Rightarrow> data ob | _ \<Rightarrow> None)"

text \<open>The frees that releasing the last reference performs: the payload, then the Handle.\<close>

definition final_frees :: "addr option \<Rightarrow> addr \<Rightarrow> event list" where
  "final_frees p a = (case p of None \<Rightarrow> [] | Some b \<Rightarrow> [Free_event b]) @ [Free_event a]"

definition unmapped :: "heap \<Rightarrow> addr option \<Rightarrow> bool" where
  "unmapped h p = (case p of None \<Rightarrow> True | Some b \<Rightarrow> mem h b = None)"

text \<open>
  Property P1 at a Handle \<open>a\<close> of the heap \<open>h0\<close> and a number \<open>n\<close>: the \<open>n\<close> retains are
  defined; after them, any \<open>k \<le> n\<close> releases are defined, leave the Handle live and free
  nothing; \<open>n + 1\<close> releases are defined and free the payload and then the Handle.
\<close>

definition freed_by_last_release :: "heap \<Rightarrow> addr \<Rightarrow> nat \<Rightarrow> bool" where
  "freed_by_last_release h0 a n =
     (case times_ub n (\<lambda>s. retain_js_object s (Some a)) h0 of
        Inl e \<Rightarrow> False
      | Inr h1 \<Rightarrow>
          (\<forall>k \<in> {..n}.
             case times_ub k (\<lambda>s. release_js_object s (Some a)) h1 of
               Inl e \<Rightarrow> False
             | Inr hk \<Rightarrow> live_handle hk a \<and> events hk = events h0) \<and>
          (case times_ub (Suc n) (\<lambda>s. release_js_object s (Some a)) h1 of
             Inl e \<Rightarrow> False
           | Inr h' \<Rightarrow>
               mem h' a = None \<and> unmapped h' (payload_of h0 a) \<and>
               events h' = events h0 @ final_frees (payload_of h0 a) a))"

text \<open>Whether the next call of malloc returns a block.\<close>

definition next_malloc_ok :: "heap \<Rightarrow> bool" where
  "next_malloc_ok h = (case outcomes h of True # rest \<Rightarrow> True | _ \<Rightarrow> False)"

text \<open>Concrete inputs: an empty heap with given allocator answers, and a heap with one Handle.\<close>

definition empty_heap :: "bool list \<Rightarrow> heap" where
  "empty_heap os = \<lparr>mem = (\<lambda>a. None), brk = 0, outcomes = os, events = []\<rparr>"

definition one_handle_heap :: "int \<Rightarrow> heap" where
  "one_handle_heap c =
     \<lparr>mem = (\<lambda>a. None)
        (0 \<mapsto> Obj_block \<lparr>ref_count = c, data = Some 1, size_field = 3\<rparr>,
         1 \<mapsto> Char_block (''hi'' @ [NUL])),
      brk = 2, outcomes = [], events = []\<rparr>"

text \<open>
  An instance of the double operations for evaluating the dispatcher: exact arithmetic
  on the reals, with which double arithmetic agrees wherever its results are exact.
\<close>

definition real_ops :: "real double_ops" where
  "real_ops = \<lparr>dadd = (+), dsub = (-), dmul = (*), ddiv = (/), dneq_zero = (\<lambda>b. b \<noteq> 0), dzero = 0\<rparr>"

section \<open>Properties\<close>

subsection \<open>Null references\<close>

text \<open>
  Claim C4. With a null reference, retain and release return normally and leave the
  whole state as it is, and read returns normally a pointer to the literal "null".
\<close>

theorem null_reference_safe:
  "retain_js_object h None = Inr h \<and>
   release_js_object h None = Inr h \<and>
   js_object_get_data h None = Inr (Static_chars ''null'') \<and>
   bind_ub (js_object_get_data h None) (c_string h) = Inr ''null''"
  by (simp add: retain_js_object_def release_js_object_def js_object_get_data_def
      bind_ub_def c_string_def)

subsection \<open>The arithmetic dispatcher\<close>

text \<open>
  Claim C7. The dispatcher returns the sum for selector 0, the difference for 1, the
  product for 2, the quotient for 3 when the divisor is not zero, and the double 0 for
  selector 3 when the divisor is zero.
\<close>

theorem fast_math_operation_selects:
  "fast_math_operation fp a b 0 = dadd fp a b \<and>
   fast_math_operation fp a b 1 = dsub fp a b \<and>
   fast_math_operation fp a b 2 = dmul fp a b \<and>
   (dneq_zero fp b \<longrightarrow> fast_math_operation fp a b 3 = ddiv fp a b) \<and>
   (\<not> dneq_zero fp b \<longrightarrow> fast_math_operation fp a b 3 = dzero fp)"
  by (simp add: fast_math_operation_def)

theorem fast_math_operation_selects_witness:
  "dneq_zero real_ops 4 \<and> fast_math_operation real_ops 6 4 3 = 3 / 2 \<and>
   \<not> dneq_zero real_ops 0 \<and> fast_math_operation real_ops 6 0 3 = 0 \<and>
   fast_math_operation real_ops 6 4 0 = 10 \<and>
   fast_math_operation real_ops 6 4 1 = 2 \<and>
   fast_math_operation real_ops 6 4 2 = 24"
  using fast_math_operation_selects [of real_ops 6 4]
    fast_math_operation_selects [of real_ops 6 0]
  by (simp add: real_ops_def)

text \<open>
  Claim C9. For a selector other than 0, 1, 2 and 3 the dispatcher returns the double 0,
  whatever the operands.
\<close>

theorem fast_math_operation_default:
  "operation \<notin> {0, 1, 2, 3} \<Longrightarrow> fast_math_operation fp a b operation = dzero fp"
  by (simp add: fast_math_operation_def)

theorem fast_math_operation_default_witness:
  "(7::int) \<notin> {0, 1, 2, 3} \<and> fast_math_operation real_ops 6 4 7 = 0 \<and>
   (- 1::int) \<notin> {0, 1, 2, 3} \<and> fast_math_operation real_ops 6 4 (- 1) = 0"
  using fast_math_operation_default [of 7 real_ops 6 4]
    fast_math_operation_default [of "- 1" real_ops 6 4]
  by (simp add: real_ops_def)

subsection \<open>The cycle counter\<close>

lemma get_cpu_cycles_x86_64:
  "get_cpu_cycles X86_64 lo hi = word_cat hi lo"
  by (simp add: get_cpu_cycles_def word_cat_eq_push_bit_or or.commute)

lemma get_cpu_cycles_halves:
  "ucast (get_cpu_cycles X86_64 lo hi) = lo \<and>
   ucast (drop_bit 32 (get_cpu_cycles X86_64 lo hi)) = hi"
  unfolding get_cpu_cycles_x86_64
  by (auto intro!: bit_word_eqI simp add: bit_simps bit_word_cat_iff)

text \<open>
  Claim C8. The cycle counter is a function of the build target and of what the
  processor's counter holds, and nothing else: it has no state to change. Its value read
  as a number is never negative, and on a target other than x86_64 it is 0.
\<close>

theorem get_cpu_cycles_nonnegative_fallback:
  "0 \<le> uint (get_cpu_cycles t lo hi) \<and> get_cpu_cycles Other_target lo hi = 0"
  by (simp add: get_cpu_cycles_def)

subsection \<open>Single steps and runs of retain and release\<close>

lemma retain_defined:
  "mem h a = Some (Obj_block ob) \<Longrightarrow> ref_count ob < INT_MAX \<Longrightarrow>
   retain_js_object h (Some a) =
     Inr (h\<lparr>mem := (mem h)(a \<mapsto> Obj_block (ob\<lparr>ref_count := ref_count ob + 1\<rparr>))\<rparr>)"
  by (simp add: retain_js_object_def)

lemma release_shared:
  "mem h a = Some (Obj_block ob) \<Longrightarrow> 1 < ref_count ob \<Longrightarrow>
   release_js_object h (Some a) =
     Inr (h\<lparr>mem := (mem h)(a \<mapsto> Obj_block (ob\<lparr>ref_count := ref_count ob - 1\<rparr>))\<rparr>)"
  by (simp add: release_js_object_def INT_MIN_def Let_def)

lemma release_last_no_payload:
  "mem h a = Some (Obj_block ob) \<Longrightarrow> ref_count ob = 1 \<Longrightarrow> data ob = None \<Longrightarrow>
   release_js_object h (Some a) =
     Inr (h\<lparr>mem := (mem h)(a := None), events := events h @ [Free_event a]\<rparr>)"
  by (simp add: release_js_object_def INT_MIN_def Let_def free_def)

lemma release_last_payload:
  "mem h a = Some (Obj_block ob) \<Longrightarrow> ref_count ob = 1 \<Longrightarrow> data ob = Some b \<Longrightarrow>
   b \<noteq> a \<Longrightarrow> mem h b = Some blk \<Longrightarrow>
   release_js_object h (Some a) =
     Inr (h\<lparr>mem := (mem h)(b := None, a := None),
            events := events h @ [Free_event b, Free_event a]\<rparr>)"
  by (simp add: release_js_object_def INT_MIN_def Let_def free_def fun_upd_twist)

lemma times_retain:
  "mem h a = Some (Obj_block ob) \<Longrightarrow> ref_count ob + int n \<le> INT_MAX \<Longrightarrow>
   times_ub n (\<lambda>s. retain_js_object s (Some a)) h =
     Inr (h\<lparr>mem := (mem h)(a \<mapsto> Obj_block (ob\<lparr>ref_count := ref_count ob + int n\<rparr>))\<rparr>)"
proof (induction n arbitrary: h ob)
  case 0
  then have "(mem h)(a \<mapsto> Obj_block ob) = mem h" by (simp add: fun_upd_idem)
  then show ?case by simp
next
  case (Suc n)
  let ?ob = "ob\<lparr>ref_count := ref_count ob + 1\<rparr>"
  let ?h = "h\<lparr>mem := (mem h)(a \<mapsto> Obj_block ?ob)\<rparr>"
  from Suc.prems have step: "retain_js_object h (Some a) = Inr ?h"
    by (intro retain_defined) simp_all
  have rest: "times_ub n (\<lambda>s. retain_js_object s (Some a)) ?h =
      Inr (?h\<lparr>mem := (mem ?h)(a \<mapsto> Obj_block (?ob\<lparr>ref_count := ref_count ?ob + int n\<rparr>))\<rparr>)"
    using Suc.prems by (intro Suc.IH) simp_all
  have same: "?h\<lparr>mem := (mem ?h)(a \<mapsto> Obj_block (?ob\<lparr>ref_count := ref_count ?ob + int n\<rparr>))\<rparr> =
      h\<lparr>mem := (mem h)(a \<mapsto> Obj_block (ob\<lparr>ref_count := ref_count ob + int (Suc n)\<rparr>))\<rparr>"
    by (simp add: add.assoc)
  show ?case
    unfolding times_ub.simps step bind_ub_def sum.case rest same ..
qed

lemma times_release:
  "mem h a = Some (Obj_block ob) \<Longrightarrow> int k < ref_count ob \<Longrightarrow>
   times_ub k (\<lambda>s. release_js_object s (Some a)) h =
     Inr (h\<lparr>mem := (mem h)(a \<mapsto> Obj_block (ob\<lparr>ref_count := ref_count ob - int k\<rparr>))\<rparr>)"
proof (induction k arbitrary: h ob)
  case 0
  then have "(mem h)(a \<mapsto> Obj_block ob) = mem h" by (simp add: fun_upd_idem)
  then show ?case by simp
next
  case (Suc k)
  let ?ob = "ob\<lparr>ref_count := ref_count ob - 1\<rparr>"
  let ?h = "h\<lparr>mem := (mem h)(a \<mapsto> Obj_block ?ob)\<rparr>"
  from Suc.prems have step: "release_js_object h (Some a) = Inr ?h"
    by (intro release_shared) simp_all
  have rest: "times_ub k (\<lambda>s. release_js_object s (Some a)) ?h =
      Inr (?h\<lparr>mem := (mem ?h)(a \<mapsto> Obj_block (?ob\<lparr>ref_count := ref_count ?ob - int k\<rparr>))\<rparr>)"
    using Suc.prems by (intro Suc.IH) simp_all
  have same: "?h\<lparr>mem := (mem ?h)(a \<mapsto> Obj_block (?ob\<lparr>ref_count := ref_count ?ob - int k\<rparr>))\<rparr> =
      h\<lparr>mem := (mem h)(a \<mapsto> Obj_block (ob\<lparr>ref_count := ref_count ob - int (Suc k)\<rparr>))\<rparr>"
    by (simp add: algebra_simps)
  show ?case
    unfolding times_ub.simps step bind_ub_def sum.case rest same ..
qed

lemma times_ub_add:
  "times_ub (m + n) f h = bind_ub (times_ub m f h) (times_ub n f)"
  by (induction m arbitrary: h) (simp_all add: bind_ub_def split: sum.splits)


lemma live_handle_cases:
  assumes "live_handle h a" and "mem h a = Some (Obj_block ob)"
  shows "1 \<le> ref_count ob"
    and "data ob = None \<or> (\<exists>b bs. data ob = Some b \<and> b \<noteq> a \<and> mem h b = Some (Char_block bs))"
  using assms
  by (auto simp: live_handle_def split: option.splits block.splits)

lemma live_handle_count_update:
  assumes "live_handle h a" and "mem h a = Some (Obj_block ob)" and "1 \<le> c"
  shows "live_handle (h\<lparr>mem := (mem h)(a \<mapsto> Obj_block (ob\<lparr>ref_count := c\<rparr>))\<rparr>) a"
  using assms
  by (auto simp: live_handle_def split: option.splits block.splits)

subsection \<open>Release\<close>

text \<open>
  Claim C5. On a live Handle, release takes 1 from ref_count. If the count was more than
  1, that is all it does: the Handle stays allocated with the smaller count. If the count
  was 1, so that the decrement gives 0, release frees the payload buffer (when there is
  one) and then the Handle, in this order in the allocator's log, and returns the heap
  without the two blocks; the caller sees no state in between.
\<close>

theorem release_decrements_frees_payload_then_handle:
  assumes "live_handle h a" and "mem h a = Some (Obj_block ob)"
  shows "release_js_object h (Some a) =
     Inr (if ref_count ob - 1 = 0
          then h\<lparr>mem := (case data ob of
                            None \<Rightarrow> (mem h)(a := None)
                          | Some b \<Rightarrow> (mem h)(b := None, a := None)),
                 events := events h @ final_frees (data ob) a\<rparr>
          else h\<lparr>mem := (mem h)(a \<mapsto> Obj_block (ob\<lparr>ref_count := ref_count ob - 1\<rparr>))\<rparr>)"
proof (cases "ref_count ob = 1")
  case False
  with live_handle_cases(1) [OF assms] have "1 < ref_count ob" by simp
  with assms(2) False show ?thesis by (simp add: release_shared)
next
  case True
  from live_handle_cases(2) [OF assms] show ?thesis
  proof (elim disjE exE conjE)
    assume "data ob = None"
    with assms(2) True show ?thesis
      by (simp add: release_last_no_payload final_frees_def)
  next
    fix b bs
    assume "data ob = Some b" "b \<noteq> a" "mem h b = Some (Char_block bs)"
    with assms(2) True show ?thesis
      by (simp add: release_last_payload final_frees_def)
  qed
qed

theorem release_decrements_frees_payload_then_handle_witness:
  "live_handle (one_handle_heap 1) 0 \<and>
   release_js_object (one_handle_heap 1) (Some 0) =
     Inr \<lparr>mem = (\<lambda>a. None), brk = 2, outcomes = [], events = [Free_event 1, Free_event 0]\<rparr> \<and>
   live_handle (one_handle_heap 2) 0 \<and>
   release_js_object (one_handle_heap 2) (Some 0) =
     Inr \<lparr>mem = (\<lambda>a. None)
            (0 \<mapsto> Obj_block \<lparr>ref_count = 1, data = Some 1, size_field = 3\<rparr>,
             1 \<mapsto> Char_block (''hi'' @ [NUL])),
          brk = 2, outcomes = [], events = []\<rparr>"
proof -
  have l1: "live_handle (one_handle_heap 1) 0" and l2: "live_handle (one_handle_heap 2) 0"
    by (simp_all add: live_handle_def one_handle_heap_def)
  have m1: "mem (one_handle_heap 1) 0 = Some (Obj_block \<lparr>ref_count = 1, data = Some 1, size_field = 3\<rparr>)"
    and m2: "mem (one_handle_heap 2) 0 = Some (Obj_block \<lparr>ref_count = 2, data = Some 1, size_field = 3\<rparr>)"
    by (simp_all add: one_handle_heap_def)
  show ?thesis
    using l1 l2 release_decrements_frees_payload_then_handle [OF l1 m1]
      release_decrements_frees_payload_then_handle [OF l2 m2]
    by (simp add: one_handle_heap_def final_frees_def fun_upd_twist)
qed

subsection \<open>What retain and release leave alone\<close>

lemma retain_returns:
  assumes "mem h a = Some (Obj_block ob)" and "retain_js_object h (Some a) = Inr h'"
  shows "h' = h\<lparr>mem := (mem h)(a \<mapsto> Obj_block (ob\<lparr>ref_count := ref_count ob + 1\<rparr>))\<rparr>"
  using assms by (simp add: retain_js_object_def split: if_splits)

text \<open>
  Claim C6. On every live Handle, whenever retain returns, and whenever release is
  called while the count stays at least 1, the heap that comes back has the Handle's
  block changed in the field ref_count only: size and the payload pointer are the same,
  every other block, the payload buffer among them, is the same, and read gives the
  same string as before. (Retain returns unless the count is \<open>INT_MAX\<close>, where the
  increment overflows and nothing is returned at all.)
\<close>

theorem retain_release_frame:
  assumes "live_handle h a" and "mem h a = Some (Obj_block ob)"
  shows "(\<forall>h'. retain_js_object h (Some a) = Inr h' \<longrightarrow>
          (\<exists>ob'. mem h' a = Some (Obj_block ob') \<and> ob' = ob\<lparr>ref_count := ref_count ob + 1\<rparr> \<and>
             size_field ob' = size_field ob \<and> data ob' = data ob \<and>
             (\<forall>x. x \<noteq> a \<longrightarrow> mem h' x = mem h x) \<and>
             bind_ub (js_object_get_data h' (Some a)) (c_string h') =
               bind_ub (js_object_get_data h (Some a)) (c_string h) \<and>
             brk h' = brk h \<and> outcomes h' = outcomes h \<and> events h' = events h)) \<and>
         (ref_count ob \<noteq> INT_MAX \<longrightarrow> (\<exists>h'. retain_js_object h (Some a) = Inr h')) \<and>
         (1 < ref_count ob \<longrightarrow>
          (\<exists>h' ob'. release_js_object h (Some a) = Inr h' \<and>
             mem h' a = Some (Obj_block ob') \<and> ob' = ob\<lparr>ref_count := ref_count ob - 1\<rparr> \<and>
             size_field ob' = size_field ob \<and> data ob' = data ob \<and>
             (\<forall>x. x \<noteq> a \<longrightarrow> mem h' x = mem h x) \<and>
             bind_ub (js_object_get_data h' (Some a)) (c_string h') =
               bind_ub (js_object_get_data h (Some a)) (c_string h) \<and>
             brk h' = brk h \<and> outcomes h' = outcomes h \<and> events h' = events h))"
proof -
  have frame: "mem h' a = Some (Obj_block ob') \<and> ob' = ob\<lparr>ref_count := c\<rparr> \<and>
      size_field ob' = size_field ob \<and> data ob' = data ob \<and>
      (\<forall>x. x \<noteq> a \<longrightarrow> mem h' x = mem h x) \<and>
      bind_ub (js_object_get_data h' (Some a)) (c_string h') =
        bind_ub (js_object_get_data h (Some a)) (c_string h) \<and>
      brk h' = brk h \<and> outcomes h' = outcomes h \<and> events h' = events h"
    if "h' = h\<lparr>mem := (mem h)(a \<mapsto> Obj_block ob')\<rparr>" and "ob' = ob\<lparr>ref_count := c\<rparr>"
    for h' ob' c
    using that assms(2) live_handle_cases(2) [OF assms]
    by (auto simp: js_object_get_data_def bind_ub_def c_string_def)
  have retained: "\<exists>ob'. mem h' a = Some (Obj_block ob') \<and>
      ob' = ob\<lparr>ref_count := ref_count ob + 1\<rparr> \<and>
      size_field ob' = size_field ob \<and> data ob' = data ob \<and>
      (\<forall>x. x \<noteq> a \<longrightarrow> mem h' x = mem h x) \<and>
      bind_ub (js_object_get_data h' (Some a)) (c_string h') =
        bind_ub (js_object_get_data h (Some a)) (c_string h) \<and>
      brk h' = brk h \<and> outcomes h' = outcomes h \<and> events h' = events h"
    if "retain_js_object h (Some a) = Inr h'" for h'
    using frame [OF retain_returns [OF assms(2) that] refl] by blast
  have defined: "\<exists>h'. retain_js_object h (Some a) = Inr h'" if "ref_count ob \<noteq> INT_MAX"
    using that assms(2) by (simp add: retain_js_object_def)
  have released: "\<exists>h' ob'. release_js_object h (Some a) = Inr h' \<and>
      mem h' a = Some (Obj_block ob') \<and> ob' = ob\<lparr>ref_count := ref_count ob - 1\<rparr> \<and>
      size_field ob' = size_field ob \<and> data ob' = data ob \<and>
      (\<forall>x. x \<noteq> a \<longrightarrow> mem h' x = mem h x) \<and>
      bind_ub (js_object_get_data h' (Some a)) (c_string h') =
        bind_ub (js_object_get_data h (Some a)) (c_string h) \<and>
      brk h' = brk h \<and> outcomes h' = outcomes h \<and> events h' = events h"
    if "1 < ref_count ob"
    using release_shared [OF assms(2) that] frame [OF refl refl] by blast
  from retained defined released show ?thesis by blast
qed

theorem retain_release_frame_witness:
  "live_handle (one_handle_heap 2) 0 \<and>
   retain_js_object (one_handle_heap 2) (Some 0) = Inr (one_handle_heap 3) \<and>
   mem (one_handle_heap 3) 0 =
     Some (Obj_block \<lparr>ref_count = 3, data = Some 1, size_field = 3\<rparr>) \<and>
   mem (one_handle_heap 3) 1 = mem (one_handle_heap 2) 1 \<and>
   events (one_handle_heap 3) = events (one_handle_heap 2) \<and>
   (1::int) < 2 \<and>
   (\<exists>h'. release_js_object (one_handle_heap 2) (Some 0) = Inr h' \<and>
      mem h' 0 = Some (Obj_block \<lparr>ref_count = 1, data = Some 1, size_field = 3\<rparr>) \<and>
      mem h' 1 = mem (one_handle_heap 2) 1 \<and> events h' = events (one_handle_heap 2))"
proof -
  let ?ob = "\<lparr>ref_count = 2, data = Some 1, size_field = 3\<rparr>"
  have l: "live_handle (one_handle_heap 2) 0"
    by (simp add: live_handle_def one_handle_heap_def)
  have m: "mem (one_handle_heap 2) 0 = Some (Obj_block ?ob)"
    by (simp add: one_handle_heap_def)
  have r: "retain_js_object (one_handle_heap 2) (Some 0) = Inr (one_handle_heap 3)"
    by (simp add: retain_js_object_def one_handle_heap_def INT_MAX_def fun_upd_twist)
  have b: "1 < ref_count ?ob" by simp
  have ne: "(1::nat) \<noteq> 0" by simp
  note frame = retain_release_frame [OF l m]
  from frame r
  have kept: "\<exists>ob'. mem (one_handle_heap 3) 0 = Some (Obj_block ob') \<and>
      ob' = ?ob\<lparr>ref_count := ref_count ?ob + 1\<rparr> \<and>
      mem (one_handle_heap 3) 1 = mem (one_handle_heap 2) 1 \<and>
      events (one_handle_heap 3) = events (one_handle_heap 2)"
    using ne by blast
  from frame b
  have "\<exists>h'. release_js_object (one_handle_heap 2) (Some 0) = Inr h' \<and>
      mem h' 0 = Some (Obj_block (?ob\<lparr>ref_count := ref_count ?ob - 1\<rparr>)) \<and>
      mem h' 1 = mem (one_handle_heap 2) 1 \<and> events h' = events (one_handle_heap 2)"
    using ne by blast
  with kept l r show ?thesis by simp
qed

subsection \<open>Create\<close>

lemma create_no_handle:
  "\<not> next_malloc_ok h \<Longrightarrow>
   create_js_object h d =
     (None, h\<lparr>outcomes := tl (outcomes h),
              events := events h @ [Malloc_failed sizeof_JSObject]\<rparr>)"
  by (auto simp: create_js_object_def malloc_def next_malloc_ok_def
      split: list.splits bool.splits)

lemma create_no_payload:
  "outcomes h = True # rest \<Longrightarrow> \<not> next_malloc_ok (h\<lparr>outcomes := rest\<rparr>) \<Longrightarrow>
   create_js_object h d =
     (Some (brk h),
      h\<lparr>mem := (mem h)(brk h \<mapsto>
               Obj_block \<lparr>ref_count = 1, data = None, size_field = strlen d + 1\<rparr>),
        brk := Suc (brk h), outcomes := tl rest,
        events := events h @
          [Malloc_event (brk h) sizeof_JSObject, Malloc_failed (strlen d + 1)]\<rparr>)"
  by (auto simp: create_js_object_def malloc_def next_malloc_ok_def
      split: list.splits bool.splits)

lemma create_both:
  "outcomes h = True # True # rest \<Longrightarrow>
   create_js_object h d =
     (Some (brk h),
      h\<lparr>mem := (mem h)
          (brk h \<mapsto> Obj_block \<lparr>ref_count = 1, data = Some (Suc (brk h)),
                                size_field = strlen d + 1\<rparr>,
           Suc (brk h) \<mapsto> Char_block (strcpy d)),
        brk := Suc (Suc (brk h)), outcomes := rest,
        events := events h @
          [Malloc_event (brk h) sizeof_JSObject,
           Malloc_event (Suc (brk h)) (strlen d + 1)]\<rparr>)"
  by (simp add: create_js_object_def malloc_def)

lemma create_cases:
  "(\<not> next_malloc_ok h) \<or>
   (\<exists>rest. outcomes h = True # rest \<and> \<not> next_malloc_ok (h\<lparr>outcomes := rest\<rparr>)) \<or>
   (\<exists>rest. outcomes h = True # True # rest)"
  by (auto simp: next_malloc_ok_def split: list.splits bool.splits)

lemma create_returns_live:
  assumes "create_js_object h d = (Some a, h0)"
  shows "live_handle h0 a \<and> (\<exists>ob. mem h0 a = Some (Obj_block ob) \<and> ref_count ob = 1)"
  using create_cases [of h]
proof (elim disjE exE conjE)
  assume "\<not> next_malloc_ok h"
  with assms show ?thesis by (simp add: create_no_handle)
next
  fix rest
  assume "outcomes h = True # rest" "\<not> next_malloc_ok (h\<lparr>outcomes := rest\<rparr>)"
  from create_no_payload [OF this, of d] assms show ?thesis
    by (auto simp: live_handle_def)
next
  fix rest
  assume "outcomes h = True # True # rest"
  from create_both [OF this, of d] assms show ?thesis
    by (auto simp: live_handle_def)
qed


subsection \<open>Count arithmetic\<close>

lemma times_ub_one: "times_ub (Suc 0) f = f"
  by (rule ext) (simp add: bind_ub_def split: sum.splits)

lemma times_ub_Suc_right: "times_ub (Suc n) f h = bind_ub (times_ub n f h) f"
  using times_ub_add [of n "Suc 0" f h]
  by (simp only: add_Suc_right add_0_right times_ub_one)

lemma retains_then_releases:
  assumes live: "live_handle h a" and blk: "mem h a = Some (Obj_block ob)"
    and one: "ref_count ob = 1" and bound: "int n + 1 \<le> INT_MAX"
  shows "freed_by_last_release h a n"
proof -
  let ?rel = "\<lambda>s. release_js_object s (Some a)"
  let ?ob1 = "ob\<lparr>ref_count := ref_count ob + int n\<rparr>"
  let ?h1 = "h\<lparr>mem := (mem h)(a \<mapsto> Obj_block ?ob1)\<rparr>"
  have retains: "times_ub n (\<lambda>s. retain_js_object s (Some a)) h = Inr ?h1"
    using blk one bound by (intro times_retain) simp_all
  have blk1: "mem ?h1 a = Some (Obj_block ?ob1)" by simp
  have releases: "times_ub k ?rel ?h1 =
      Inr (h\<lparr>mem := (mem h)(a \<mapsto> Obj_block (ob\<lparr>ref_count := 1 + int n - int k\<rparr>))\<rparr>)"
    if "k \<le> n" for k
  proof -
    have "times_ub k ?rel ?h1 =
        Inr (?h1\<lparr>mem := (mem ?h1)(a \<mapsto> Obj_block (?ob1\<lparr>ref_count := ref_count ?ob1 - int k\<rparr>))\<rparr>)"
      using that one by (intro times_release [OF blk1]) simp
    then show ?thesis by (simp add: one)
  qed
  have prefix: "case times_ub k ?rel ?h1 of Inl e \<Rightarrow> False
      | Inr hk \<Rightarrow> live_handle hk a \<and> events hk = events h" if "k \<le> n" for k
  proof -
    have "live_handle (h\<lparr>mem := (mem h)(a \<mapsto> Obj_block (ob\<lparr>ref_count := 1 + int n - int k\<rparr>))\<rparr>) a"
      using that by (intro live_handle_count_update [OF live blk]) simp
    then show ?thesis by (simp add: releases [OF that])
  qed
  let ?obn = "ob\<lparr>ref_count := 1\<rparr>"
  let ?hn = "h\<lparr>mem := (mem h)(a \<mapsto> Obj_block ?obn)\<rparr>"
  have "?obn = ob" using one by simp
  then have hn: "?hn = h" using blk by (simp add: fun_upd_idem)
  have "times_ub n ?rel ?h1 = Inr ?hn"
    using releases [of n] by simp
  then have last: "times_ub (Suc n) ?rel ?h1 = release_js_object h (Some a)"
    unfolding times_ub_Suc_right hn by (simp only: bind_ub_def sum.case)
  have "case release_js_object h (Some a) of Inl e \<Rightarrow> False
      | Inr h' \<Rightarrow> mem h' a = None \<and> unmapped h' (payload_of h a) \<and>
          events h' = events h @ final_frees (payload_of h a) a"
    using live_handle_cases(2) [OF live blk]
  proof (elim disjE exE conjE)
    assume "data ob = None"
    with blk one show ?thesis
      by (simp add: release_last_no_payload payload_of_def unmapped_def final_frees_def)
  next
    fix b bs
    assume "data ob = Some b" "b \<noteq> a" "mem h b = Some (Char_block bs)"
    with blk one show ?thesis
      by (simp add: release_last_payload payload_of_def unmapped_def final_frees_def)
  qed
  then have final: "case times_ub (Suc n) ?rel ?h1 of Inl e \<Rightarrow> False
      | Inr h' \<Rightarrow> mem h' a = None \<and> unmapped h' (payload_of h a) \<and>
          events h' = events h @ final_frees (payload_of h a) a"
    by (simp only: last)
  show ?thesis
    unfolding freed_by_last_release_def retains sum.case
  proof (intro conjI ballI)
    fix k
    assume "k \<in> {..n}"
    then have "k \<le> n" by simp
    then show "case times_ub k ?rel ?h1 of Inl e \<Rightarrow> False
      | Inr hk \<Rightarrow> live_handle hk a \<and> events hk = events h"
      by (rule prefix)
  next
    show "case times_ub (Suc n) ?rel ?h1 of Inl e \<Rightarrow> False
      | Inr h' \<Rightarrow> mem h' a = None \<and> unmapped h' (payload_of h a) \<and>
          events h' = events h @ final_frees (payload_of h a) a"
      by (rule final)
  qed
qed

text \<open>
  Claim C1, amended to the counts an int holds. For every \<open>n\<close> with \<open>n + 1 \<le> INT_MAX\<close>,
  from a Handle that create returned, \<open>n\<close> retains followed by \<open>n + 1\<close> releases free
  the Handle, payload first, on the last release; after any \<open>k \<le> n\<close> of the releases
  the Handle is live and nothing has been freed.
\<close>

theorem count_arithmetic:
  assumes "create_js_object h d = (Some a, h0)" and "int n + 1 \<le> INT_MAX"
  shows "freed_by_last_release h0 a n"
proof -
  from create_returns_live [OF assms(1)] obtain ob
    where "live_handle h0 a" "mem h0 a = Some (Obj_block ob)" "ref_count ob = 1"
    by blast
  then show ?thesis using assms(2) by (rule retains_then_releases)
qed

theorem count_arithmetic_witness:
  "create_js_object (empty_heap [True, True]) ''abc'' =
     (Some 0, snd (create_js_object (empty_heap [True, True]) ''abc'')) \<and>
   int 2 + 1 \<le> INT_MAX \<and>
   freed_by_last_release (snd (create_js_object (empty_heap [True, True]) ''abc'')) 0 2"
proof -
  have c: "create_js_object (empty_heap [True, True]) ''abc'' =
     (Some 0, snd (create_js_object (empty_heap [True, True]) ''abc''))"
    by (simp add: create_both empty_heap_def)
  have b: "int 2 + 1 \<le> INT_MAX" by (simp add: INT_MAX_def)
  from c b count_arithmetic [OF c b] show ?thesis by simp
qed

text \<open>
  Claim C1 as stated, for every \<open>n\<close>, fails at \<open>n = INT_MAX\<close>: the last of the retains
  increments a count that is \<open>INT_MAX\<close> already.
\<close>

theorem count_arithmetic_counterexample:
  "fst (create_js_object (empty_heap [True, True]) ''abc'') = Some 0 \<and>
   times_ub 2147483647 (\<lambda>s. retain_js_object s (Some 0))
     (snd (create_js_object (empty_heap [True, True]) ''abc'')) = Inl Signed_overflow \<and>
   \<not> freed_by_last_release (snd (create_js_object (empty_heap [True, True]) ''abc'')) 0 2147483647"
proof -
  let ?h0 = "snd (create_js_object (empty_heap [True, True]) ''abc'')"
  let ?ret = "\<lambda>s. retain_js_object s (Some 0)"
  let ?ob = "\<lparr>ref_count = 1, data = Some (Suc 0), size_field = strlen ''abc'' + 1\<rparr>"
  have c: "fst (create_js_object (empty_heap [True, True]) ''abc'') = Some 0"
    by (simp add: create_both empty_heap_def)
  have blk: "mem ?h0 0 = Some (Obj_block ?ob)"
    by (simp add: create_both empty_heap_def)
  let ?hm = "?h0\<lparr>mem := (mem ?h0)(0 \<mapsto> Obj_block (?ob\<lparr>ref_count := ref_count ?ob + int 2147483646\<rparr>))\<rparr>"
  have "times_ub 2147483646 ?ret ?h0 = Inr ?hm"
    by (rule times_retain [OF blk]) (simp add: INT_MAX_def)
  moreover have "retain_js_object ?hm (Some 0) = Inl Signed_overflow"
    by (simp add: retain_js_object_def INT_MAX_def)
  moreover have "times_ub (2147483646 + 1) ?ret ?h0 =
      bind_ub (times_ub 2147483646 ?ret ?h0) (times_ub 1 ?ret)"
    by (rule times_ub_add)
  ultimately have ov: "times_ub 2147483647 ?ret ?h0 = Inl Signed_overflow"
    by (simp add: bind_ub_def)
  then have "\<not> freed_by_last_release ?h0 0 2147483647"
    by (simp add: freed_by_last_release_def)
  with c ov show ?thesis by simp
qed

subsection \<open>Allocation failure and the payload round trip\<close>

lemma strlen_abc: "strlen ''abc'' = 3"
  by (simp add: strlen_def NUL_def)

lemma takeWhile_no_NUL: "NUL \<notin> set d \<Longrightarrow> takeWhile (\<lambda>c. c \<noteq> NUL) d = d"
  by (rule takeWhile_eq_all_conv [THEN iffD2]) auto

lemma c_string_strcpy:
  assumes "mem h b = Some (Char_block (strcpy d))"
  shows "c_string h (Heap_chars b) = Inr (takeWhile (\<lambda>c. c \<noteq> NUL) d)"
proof -
  have "\<forall>x \<in> set (takeWhile (\<lambda>c. c \<noteq> NUL) d). x \<noteq> NUL"
    by (auto dest: set_takeWhileD)
  then have "takeWhile (\<lambda>c. c \<noteq> NUL) (takeWhile (\<lambda>c. c \<noteq> NUL) d @ [NUL]) =
      takeWhile (\<lambda>c. c \<noteq> NUL) d"
    by (simp add: takeWhile_append2)
  with assms show ?thesis
    by (simp add: c_string_def strcpy_def)
qed

text \<open>
  Claim C2, amended. When the JSObject itself cannot be allocated, create returns NULL
  and leaves memory as it was. When the JSObject is allocated and the payload buffer is
  not, create does not undo the first allocation: it returns the JSObject, with count 1,
  the size of the string and a NULL payload pointer, as a live Handle.
\<close>

theorem create_allocation_failure:
  "(\<not> next_malloc_ok h \<longrightarrow>
      create_js_object h d =
        (None, h\<lparr>outcomes := tl (outcomes h),
                 events := events h @ [Malloc_failed sizeof_JSObject]\<rparr>)) \<and>
   (\<forall>rest. outcomes h = True # rest \<and> \<not> next_malloc_ok (h\<lparr>outcomes := rest\<rparr>) \<longrightarrow>
      create_js_object h d =
        (Some (brk h),
         h\<lparr>mem := (mem h)(brk h \<mapsto>
                  Obj_block \<lparr>ref_count = 1, data = None, size_field = strlen d + 1\<rparr>),
           brk := Suc (brk h), outcomes := tl rest,
           events := events h @
             [Malloc_event (brk h) sizeof_JSObject, Malloc_failed (strlen d + 1)]\<rparr>) \<and>
      live_handle (snd (create_js_object h d)) (brk h))"
proof (intro conjI impI allI)
  assume "\<not> next_malloc_ok h"
  then show "create_js_object h d =
        (None, h\<lparr>outcomes := tl (outcomes h),
                 events := events h @ [Malloc_failed sizeof_JSObject]\<rparr>)"
    by (rule create_no_handle)
next
  fix rest
  assume a: "outcomes h = True # rest \<and> \<not> next_malloc_ok (h\<lparr>outcomes := rest\<rparr>)"
  then have o: "outcomes h = True # rest" and n: "\<not> next_malloc_ok (h\<lparr>outcomes := rest\<rparr>)"
    by simp_all
  show c: "create_js_object h d =
        (Some (brk h),
         h\<lparr>mem := (mem h)(brk h \<mapsto>
                  Obj_block \<lparr>ref_count = 1, data = None, size_field = strlen d + 1\<rparr>),
           brk := Suc (brk h), outcomes := tl rest,
           events := events h @
             [Malloc_event (brk h) sizeof_JSObject, Malloc_failed (strlen d + 1)]\<rparr>)"
    by (rule create_no_payload [OF o n])
  show "live_handle (snd (create_js_object h d)) (brk h)"
    unfolding c by (simp add: live_handle_def)
qed

theorem create_allocation_failure_witness:
  "\<not> next_malloc_ok (empty_heap [False]) \<and>
   create_js_object (empty_heap [False]) ''abc'' =
     (None, \<lparr>mem = (\<lambda>a. None), brk = 0, outcomes = [],
             events = [Malloc_failed sizeof_JSObject]\<rparr>) \<and>
   outcomes (empty_heap [True, False]) = True # [False] \<and>
   \<not> next_malloc_ok (empty_heap [True, False]\<lparr>outcomes := [False]\<rparr>) \<and>
   create_js_object (empty_heap [True, False]) ''abc'' =
     (Some 0,
      \<lparr>mem = (\<lambda>a. None)(0 \<mapsto> Obj_block \<lparr>ref_count = 1, data = None, size_field = 4\<rparr>),
       brk = Suc 0, outcomes = [],
       events = [Malloc_event 0 sizeof_JSObject, Malloc_failed 4]\<rparr>)"
proof -
  have n1: "\<not> next_malloc_ok (empty_heap [False])"
    by (simp add: next_malloc_ok_def empty_heap_def)
  have o2: "outcomes (empty_heap [True, False]) = True # [False]"
    by (simp add: empty_heap_def)
  have n2: "\<not> next_malloc_ok (empty_heap [True, False]\<lparr>outcomes := [False]\<rparr>)"
    by (simp add: next_malloc_ok_def)
  from create_allocation_failure [of "empty_heap [False]" "''abc''"] n1
  have "create_js_object (empty_heap [False]) ''abc'' =
      (None, empty_heap [False]\<lparr>outcomes := tl (outcomes (empty_heap [False])),
         events := events (empty_heap [False]) @ [Malloc_failed sizeof_JSObject]\<rparr>)"
    by (rule conjunct1 [THEN mp])
  then have c1: "create_js_object (empty_heap [False]) ''abc'' =
     (None, \<lparr>mem = (\<lambda>a. None), brk = 0, outcomes = [],
             events = [Malloc_failed sizeof_JSObject]\<rparr>)"
    by (simp add: empty_heap_def)
  from create_allocation_failure [of "empty_heap [True, False]" "''abc''"] o2 n2
  have "create_js_object (empty_heap [True, False]) ''abc'' =
      (Some (brk (empty_heap [True, False])),
       empty_heap [True, False]
         \<lparr>mem := (mem (empty_heap [True, False]))(brk (empty_heap [True, False]) \<mapsto>
                  Obj_block \<lparr>ref_count = 1, data = None, size_field = strlen ''abc'' + 1\<rparr>),
           brk := Suc (brk (empty_heap [True, False])), outcomes := tl [False],
           events := events (empty_heap [True, False]) @
             [Malloc_event (brk (empty_heap [True, False])) sizeof_JSObject,
              Malloc_failed (strlen ''abc'' + 1)]\<rparr>)"
    by blast
  then have c2: "create_js_object (empty_heap [True, False]) ''abc'' =
     (Some 0,
      \<lparr>mem = (\<lambda>a. None)(0 \<mapsto> Obj_block \<lparr>ref_count = 1, data = None, size_field = 4\<rparr>),
       brk = Suc 0, outcomes = [],
       events = [Malloc_event 0 sizeof_JSObject, Malloc_failed 4]\<rparr>)"
    unfolding strlen_abc by (simp add: empty_heap_def)
  from n1 c1 o2 n2 c2 show ?thesis by (intro conjI)
qed

text \<open>
  Claim C2 as stated fails when the second allocation fails: create returns a Handle,
  and the JSObject block stays allocated.
\<close>

theorem create_allocation_failure_counterexample:
  "fst (create_js_object (empty_heap [True, False]) ''abc'') = Some 0 \<and>
   mem (snd (create_js_object (empty_heap [True, False]) ''abc'')) 0 =
     Some (Obj_block \<lparr>ref_count = 1, data = None, size_field = 4\<rparr>) \<and>
   events (snd (create_js_object (empty_heap [True, False]) ''abc'')) =
     [Malloc_event 0 sizeof_JSObject, Malloc_failed 4]"
proof -
  have o: "outcomes (empty_heap [True, False]) = True # [False]"
    by (simp add: empty_heap_def)
  have n: "\<not> next_malloc_ok (empty_heap [True, False]\<lparr>outcomes := [False]\<rparr>)"
    by (simp add: next_malloc_ok_def)
  show ?thesis
    unfolding create_no_payload [OF o n] strlen_abc
    by (simp add: empty_heap_def)
qed

text \<open>
  Claim C3, amended. When both allocations of create succeed, read on the Handle it
  returns points to a C string that is the argument up to its first NUL byte: the whole
  argument when it has no NUL byte, the empty string included.
\<close>

theorem create_read_roundtrip:
  assumes "outcomes h = True # True # rest"
  shows "\<exists>a h'. create_js_object h d = (Some a, h') \<and>
     bind_ub (js_object_get_data h' (Some a)) (c_string h') =
       Inr (takeWhile (\<lambda>c. c \<noteq> NUL) d) \<and>
     (NUL \<notin> set d \<longrightarrow> bind_ub (js_object_get_data h' (Some a)) (c_string h') = Inr d)"
proof -
  let ?h' = "snd (create_js_object h d)"
  have c: "create_js_object h d = (Some (brk h), ?h')"
    by (simp add: create_both [OF assms])
  have "mem ?h' (Suc (brk h)) = Some (Char_block (strcpy d))"
    by (simp add: create_both [OF assms])
  then have s: "c_string ?h' (Heap_chars (Suc (brk h))) = Inr (takeWhile (\<lambda>c. c \<noteq> NUL) d)"
    by (rule c_string_strcpy)
  have "js_object_get_data ?h' (Some (brk h)) = Inr (Heap_chars (Suc (brk h)))"
    by (simp add: create_both [OF assms] js_object_get_data_def)
  with s have r: "bind_ub (js_object_get_data ?h' (Some (brk h))) (c_string ?h') =
      Inr (takeWhile (\<lambda>c. c \<noteq> NUL) d)"
    by (simp add: bind_ub_def)
  then have "NUL \<notin> set d \<longrightarrow>
      bind_ub (js_object_get_data ?h' (Some (brk h))) (c_string ?h') = Inr d"
    by (simp add: takeWhile_no_NUL)
  with c r show ?thesis by blast
qed

theorem create_read_roundtrip_witness:
  "outcomes (empty_heap [True, True]) = True # True # [] \<and>
   NUL \<notin> set ''abc'' \<and> NUL \<notin> set '''' \<and>
   (\<exists>a h'. create_js_object (empty_heap [True, True]) ''abc'' = (Some a, h') \<and>
      bind_ub (js_object_get_data h' (Some a)) (c_string h') = Inr ''abc'') \<and>
   (\<exists>a h'. create_js_object (empty_heap [True, True]) '''' = (Some a, h') \<and>
      bind_ub (js_object_get_data h' (Some a)) (c_string h') = Inr '''')"
proof -
  have o: "outcomes (empty_heap [True, True]) = True # True # []"
    by (simp add: empty_heap_def)
  have n1: "NUL \<notin> set ''abc''" and n2: "NUL \<notin> set ''''"
    by (simp_all add: NUL_def)
  from create_read_roundtrip [OF o, of "''abc''"] n1
  have r1: "\<exists>a h'. create_js_object (empty_heap [True, True]) ''abc'' = (Some a, h') \<and>
      bind_ub (js_object_get_data h' (Some a)) (c_string h') = Inr ''abc''"
    by blast
  from create_read_roundtrip [OF o, of "''''"] n2
  have r2: "\<exists>a h'. create_js_object (empty_heap [True, True]) '''' = (Some a, h') \<and>
      bind_ub (js_object_get_data h' (Some a)) (c_string h') = Inr ''''"
    by blast
  from o n1 n2 r1 r2 show ?thesis by (intro conjI)
qed

text \<open>
  Claim C3 as stated, for every byte sequence, fails for one that holds a NUL byte:
  create copies, and read returns, the bytes before it only.
\<close>

theorem create_read_roundtrip_counterexample:
  "fst (create_js_object (empty_heap [True, True]) (''a'' @ [NUL] @ ''b'')) = Some 0 \<and>
   bind_ub (js_object_get_data
              (snd (create_js_object (empty_heap [True, True]) (''a'' @ [NUL] @ ''b'')))
              (Some 0))
     (c_string (snd (create_js_object (empty_heap [True, True]) (''a'' @ [NUL] @ ''b'')))) =
     Inr ''a'' \<and>
   ''a'' \<noteq> ''a'' @ [NUL] @ ''b''"
proof -
  let ?d = "''a'' @ [NUL] @ ''b''"
  let ?h' = "snd (create_js_object (empty_heap [True, True]) ?d)"
  have o: "outcomes (empty_heap [True, True]) = True # True # []"
    by (simp add: empty_heap_def)
  have t: "takeWhile (\<lambda>c. c \<noteq> NUL) ?d = ''a''"
    by (simp add: NUL_def)
  have a: "fst (create_js_object (empty_heap [True, True]) ?d) = Some 0"
    unfolding create_both [OF o] by (simp add: empty_heap_def)
  have "mem ?h' (Suc 0) = Some (Char_block (strcpy ?d))"
    unfolding create_both [OF o] by (simp add: empty_heap_def)
  then have "c_string ?h' (Heap_chars (Suc 0)) = Inr (takeWhile (\<lambda>c. c \<noteq> NUL) ?d)"
    by (rule c_string_strcpy)
  then have "c_string ?h' (Heap_chars (Suc 0)) = Inr ''a''"
    by (simp only: t)
  moreover have "js_object_get_data ?h' (Some 0) = Inr (Heap_chars (Suc 0))"
    unfolding create_both [OF o] by (simp add: empty_heap_def js_object_get_data_def)
  ultimately have "bind_ub (js_object_get_data ?h' (Some 0)) (c_string ?h') = Inr ''a''"
    by (simp add: bind_ub_def)
  with a show ?thesis by simp
qed

lemma create_without_payload_reads_null:
  "js_object_get_data (snd (create_js_object (empty_heap [True, False]) ''abc'')) (Some 0) =
     Inr Null_chars"
proof -
  have o: "outcomes (empty_heap [True, False]) = True # [False]"
    by (simp add: empty_heap_def)
  have n: "\<not> next_malloc_ok (empty_heap [True, False]\<lparr>outcomes := [False]\<rparr>)"
    by (simp add: next_malloc_ok_def)
  show ?thesis
    unfolding create_no_payload [OF o n]
    by (simp add: empty_heap_def js_object_get_data_def)
qed

subsection \<open>The demonstration routine\<close>








end
